theory Spec2Isabelle
  imports Complex_Main
begin

section \<open>Arrays, errors and the numpy operations the program uses\<close>

text \<open>
  The program (\<^verbatim>\<open>src/hawkes/hawkes.py\<close>) computes with numpy arrays of floats. Floats are
  modelled as exact reals: every statement below is about the program under exact real
  arithmetic, and says nothing about rounding, overflow or underflow.

  A one-dimensional array is a list, a two-dimensional array a list of rows. The number of
  dimensions is part of the value, because numpy's indexing depends on it.
\<close>

datatype ndarray = Vec "real list" | Mat "real list list"

text \<open>
  Exceptions are values. \<open>NonFinite\<close> is not an exception: where numpy divides by zero or
  takes the logarithm of a non-positive number it continues silently (with a RuntimeWarning)
  on \<^verbatim>\<open>inf\<close> or \<^verbatim>\<open>nan\<close>. The reals have no such values, so the model ends the
  run there with \<open>NonFinite\<close> and says nothing about what the program does afterwards.
\<close>

datatype error =
    IndexError | ValueError | AxisError | ZeroDivisionError | UnboundLocalError
  | RuntimeError | NonFinite

definition bind :: "error + 'a \<Rightarrow> ('a \<Rightarrow> error + 'b) \<Rightarrow> error + 'b" where
  "bind m k = (case m of Inl e \<Rightarrow> Inl e | Inr x \<Rightarrow> k x)"

text \<open>\<^verbatim>\<open>p.shape[0]\<close>\<close>

fun shape0 :: "ndarray \<Rightarrow> nat" where
  "shape0 (Vec xs) = length xs"
| "shape0 (Mat rs) = length rs"

text \<open>A scalar function applied to every element, as in \<^verbatim>\<open>a * np.exp(-b * dt)\<close>.\<close>

fun amap :: "(real \<Rightarrow> real) \<Rightarrow> ndarray \<Rightarrow> ndarray" where
  "amap g (Vec xs) = Vec (map g xs)"
| "amap g (Mat rs) = Mat (map (map g) rs)"

text \<open>
  \<^verbatim>\<open>np.triu_indices(n)\<close>: the index pairs of the upper triangle of an n-by-n array,
  diagonal included, row by row. \<^verbatim>\<open>np.diag_indices(n)\<close>: the pairs of the diagonal (a
  pair of index arrays: two indices per element).
\<close>

definition triu_indices :: "nat \<Rightarrow> (nat \<times> nat) list" where
  "triu_indices n = concat (map (\<lambda>i. map (\<lambda>j. (i, j)) [i..<n]) [0..<n])"

definition diag_indices :: "nat \<Rightarrow> (nat \<times> nat) list" where
  "diag_indices n = map (\<lambda>i. (i, i)) [0..<n]"

definition in_bounds :: "real list list \<Rightarrow> nat \<times> nat \<Rightarrow> bool" where
  "in_bounds rs ij = (fst ij < length rs \<and> snd ij < length (rs ! fst ij))"

definition imap2 :: "(nat \<Rightarrow> nat \<Rightarrow> real \<Rightarrow> real) \<Rightarrow> real list list \<Rightarrow> real list list" where
  "imap2 g rs = map (\<lambda>i. map (\<lambda>j. g i j (rs ! i ! j)) [0..<length (rs ! i)]) [0..<length rs]"

text \<open>
  \<^verbatim>\<open>p[idx] = v\<close> for a list \<open>idx\<close> of index pairs and a scalar \<open>v\<close>. A one-dimensional
  array cannot be indexed by pairs: numpy raises IndexError (too many indices), whatever the
  pairs are. On a two-dimensional array every pair has to be inside the array.
\<close>

fun setitem :: "ndarray \<Rightarrow> (nat \<times> nat) list \<Rightarrow> real \<Rightarrow> error + ndarray" where
  "setitem (Vec xs) idx v = Inl IndexError"
| "setitem (Mat rs) idx v =
     (if list_all (in_bounds rs) idx
      then Inr (Mat (imap2 (\<lambda>i j x. if (i, j) \<in> set idx then v else x) rs))
      else Inl IndexError)"

text \<open>
  \<^verbatim>\<open>p[idx] = vals\<close> for a one-dimensional array \<open>vals\<close> with one value per index pair;
  where a pair is repeated the last value written stays. (Broadcasting a \<open>vals\<close> of another
  length is not modelled: it is a ValueError here.)
\<close>

fun setitem_arr :: "ndarray \<Rightarrow> (nat \<times> nat) list \<Rightarrow> real list \<Rightarrow> error + ndarray" where
  "setitem_arr (Vec xs) idx vals = Inl IndexError"
| "setitem_arr (Mat rs) idx vals =
     (if \<not> list_all (in_bounds rs) idx then Inl IndexError
      else if length vals \<noteq> length idx then Inl ValueError
      else Inr (Mat (imap2 (\<lambda>i j x. case map_of (rev (zip idx vals)) (i, j) of
                                      Some v \<Rightarrow> v | None \<Rightarrow> x) rs)))"

text \<open>\<^verbatim>\<open>np.sum(p, axis=1)\<close>: the row sums; a one-dimensional array has no axis 1.\<close>

fun sum_axis1 :: "ndarray \<Rightarrow> error + real list" where
  "sum_axis1 (Vec xs) = Inl AxisError"
| "sum_axis1 (Mat rs) = Inr (map sum_list rs)"

text \<open>
  \<^verbatim>\<open>p /= s[np.newaxis].T\<close>: row \<open>i\<close> of \<open>p\<close> is divided by \<open>s[i]\<close>, in place. A zero
  divisor of a non-empty row gives \<^verbatim>\<open>inf\<close> or \<^verbatim>\<open>nan\<close>.
\<close>

fun div_rows :: "ndarray \<Rightarrow> real list \<Rightarrow> error + ndarray" where
  "div_rows (Vec xs) s = Inl ValueError"
| "div_rows (Mat rs) s =
     (if length s \<noteq> length rs then Inl ValueError
      else if list_ex (\<lambda>(r, d). r \<noteq> [] \<and> d = 0) (zip rs s) then Inl NonFinite
      else Inr (Mat (map (\<lambda>(r, d). map (\<lambda>x. x / d) r) (zip rs s))))"

text \<open>\<^verbatim>\<open>x.sum()\<close>: the sum of all elements.\<close>

fun np_sum :: "ndarray \<Rightarrow> real" where
  "np_sum (Vec xs) = sum_list xs"
| "np_sum (Mat rs) = sum_list (map sum_list rs)"

text \<open>
  \<^verbatim>\<open>np.diag(p)\<close>: the diagonal of a two-dimensional array as a one-dimensional one (and
  the diagonal matrix of a one-dimensional array).
\<close>

definition ncols :: "real list list \<Rightarrow> nat" where
  "ncols rs = (case rs of [] \<Rightarrow> 0 | r # _ \<Rightarrow> length r)"

fun np_diag :: "ndarray \<Rightarrow> ndarray" where
  "np_diag (Mat rs) = Vec (map (\<lambda>i. rs ! i ! i) [0..<min (length rs) (ncols rs)])"
| "np_diag (Vec xs) =
     Mat (map (\<lambda>i. map (\<lambda>j. if i = j then xs ! i else 0) [0..<length xs]) [0..<length xs])"

text \<open>
  \<^verbatim>\<open>x * y\<close> for two arrays of the same shape, element by element. (Broadcasting between
  arrays of different shapes is not modelled: it is a ValueError here.)
\<close>

fun mul :: "ndarray \<Rightarrow> ndarray \<Rightarrow> error + ndarray" where
  "mul (Mat xs) (Mat ys) =
     (if map length xs = map length ys
      then Inr (Mat (map (\<lambda>(r, s). map (\<lambda>(x, y). x * y) (zip r s)) (zip xs ys)))
      else Inl ValueError)"
| "mul (Vec xs) (Vec ys) =
     (if length xs = length ys then Inr (Vec (map (\<lambda>(x, y). x * y) (zip xs ys)))
      else Inl ValueError)"
| "mul _ _ = Inl ValueError"

section \<open>The time-difference matrix\<close>

text \<open>
  \<^verbatim>\<open>TDMatrix(t)\<close>: an n-by-n array of zeros, then \<^verbatim>\<open>dt[i, j] = t[i] - t[j]\<close> for
  \<open>i\<close> in \<open>0..n-1\<close> and \<open>j\<close> in \<open>0..i\<close>. Every index the loops use is inside \<open>t\<close> and
  \<open>dt\<close>.
\<close>

definition td_store :: "real list \<Rightarrow> nat \<Rightarrow> nat \<Rightarrow> real list list \<Rightarrow> real list list" where
  "td_store t i j dt = dt[i := (dt ! i)[j := t ! i - t ! j]]"

definition TDMatrix :: "real list \<Rightarrow> ndarray" where
  "TDMatrix t =
     (let n = length t;
          dt = replicate n (replicate n 0)
      in Mat (fold (\<lambda>i dt. fold (td_store t i) [0..<i + 1] dt) [0..<n] dt))"

text \<open>
  \<^verbatim>\<open>SparseTDMatrix(t, max_td)\<close>: the same two loops; a pair is kept when its difference is
  at least \<open>max_td\<close>, by appending to the three lists \<open>row\<close>, \<open>col\<close>, \<open>data\<close>, from which
  \<^verbatim>\<open>csr_matrix((data, (row, col)), shape=(n, n))\<close> is built. The pairs are produced row by
  row with increasing column and without repetition, so the compressed-row matrix stores
  them in this order: the record keeps the three lists and the shape.
\<close>

record csr_matrix =
  csr_data :: "real list"
  csr_row :: "nat list"
  csr_col :: "nat list"
  csr_shape :: "nat \<times> nat"

fun sparse_store ::
  "real list \<Rightarrow> real \<Rightarrow> nat \<Rightarrow> nat \<Rightarrow> nat list \<times> nat list \<times> real list
     \<Rightarrow> nat list \<times> nat list \<times> real list" where
  "sparse_store t max_td i j (row, col, dat) =
     (let td = t ! i - t ! j
      in if td \<ge> max_td then (row @ [i], col @ [j], dat @ [td]) else (row, col, dat))"

definition SparseTDMatrix :: "real list \<Rightarrow> real \<Rightarrow> csr_matrix" where
  "SparseTDMatrix t max_td =
     (let n = length t;
          (row, col, dat) =
             fold (\<lambda>i acc. fold (sparse_store t max_td i) [0..<i + 1] acc) [0..<n] ([], [], [])
      in \<lparr>csr_data = dat, csr_row = row, csr_col = col, csr_shape = (n, n)\<rparr>)"

text \<open>The stored entries of a sparse matrix: (row, column, value), in storage order.\<close>

definition csr_entries :: "csr_matrix \<Rightarrow> (nat \<times> nat \<times> real) list" where
  "csr_entries m = zip (csr_row m) (zip (csr_col m) (csr_data m))"

section \<open>The E-step\<close>

text \<open>
  \<^verbatim>\<open>StructProbMatrix(dt, mu, a, b)\<close>: the kernel weights, the upper triangle (diagonal
  included) set to 0, the diagonal set to \<open>mu\<close>, every row divided by its sum.
\<close>

definition StructProbMatrix :: "ndarray \<Rightarrow> real \<Rightarrow> real \<Rightarrow> real \<Rightarrow> error + ndarray" where
  "StructProbMatrix dt mu a b =
     (let p = amap (\<lambda>x. a * exp (- b * x)) dt
      in bind (setitem p (triu_indices (shape0 p)) 0) (\<lambda>p.
         bind (setitem p (diag_indices (shape0 p)) mu) (\<lambda>p.
         bind (sum_axis1 p) (\<lambda>s. div_rows p s))))"

text \<open>
  \<^verbatim>\<open>SparseStructProbMatrix(dt, mu, a, b)\<close>: the same statements without the triangle, on
  \<^verbatim>\<open>dt.data\<close>, the one-dimensional array of the stored values of a sparse matrix.
\<close>

definition SparseStructProbMatrix :: "csr_matrix \<Rightarrow> real \<Rightarrow> real \<Rightarrow> real \<Rightarrow> error + ndarray" where
  "SparseStructProbMatrix dt mu a b =
     (let p = amap (\<lambda>x. a * exp (- b * x)) (Vec (csr_data dt))
      in bind (setitem p (diag_indices (shape0 p)) mu) (\<lambda>p.
         bind (sum_axis1 p) (\<lambda>s. div_rows p s)))"

text \<open>
  \<^verbatim>\<open>StructProbMatrixFromTime(t, mu, a, b)\<close>: \<open>n\<close> copies of the row \<open>exp(b * t)\<close>, the upper
  triangle set to 0, the diagonal set to \<open>mu / a * exp(b * t)\<close>, every row divided by its
  sum. \<open>mu / a\<close> is a division of Python floats: it raises for \<open>a = 0\<close>.
\<close>

definition StructProbMatrixFromTime :: "real list \<Rightarrow> real \<Rightarrow> real \<Rightarrow> real \<Rightarrow> error + ndarray" where
  "StructProbMatrixFromTime t mu a b =
     (let n = length t;
          p = Mat (replicate n (map (\<lambda>x. exp (b * x)) t))
      in bind (setitem p (triu_indices n) 0) (\<lambda>p.
         if a = 0 then Inl ZeroDivisionError
         else bind (setitem_arr p (diag_indices n) (map (\<lambda>x. mu / a * exp (b * x)) t)) (\<lambda>p.
              bind (sum_axis1 p) (\<lambda>s. div_rows p s))))"

section \<open>The surrogate objective\<close>

text \<open>
  \<^verbatim>\<open>Q(mu, a, b, t, p, dt)\<close>. \<^verbatim>\<open>t[-1]\<close> raises on an empty \<open>t\<close>; the product of \<open>p\<close> with
  an array of another shape raises; \<open>a / b\<close> is a division of Python floats and raises for
  \<open>b = 0\<close>; the logarithm of a non-positive number is \<^verbatim>\<open>nan\<close> or \<^verbatim>\<open>-inf\<close>. The whole
  array \<open>p * (log a - b * dt)\<close> is summed, above the diagonal too.
\<close>

definition Q :: "real \<Rightarrow> real \<Rightarrow> real \<Rightarrow> real list \<Rightarrow> ndarray \<Rightarrow> ndarray \<Rightarrow> error + real" where
  "Q mu a b t p dt =
     (if t = [] then Inl IndexError
      else let T = last t - hd t
           in bind (mul p (amap (\<lambda>x. ln a - b * x) dt)) (\<lambda>w.
                if b = 0 then Inl ZeroDivisionError
                else if mu \<le> 0 \<or> a \<le> 0 then Inl NonFinite
                else Inr (ln mu * np_sum (np_diag p) - mu * T + np_sum w
                          + a / b * sum_list (map (\<lambda>x. exp (- b * (T - x)) - 1) t))))"

section \<open>The M-step and the driver\<close>

text \<open>
  \<^verbatim>\<open>f(t, T, S0, S1, S2)\<close> returns the objective of the root search. \<open>S1\<close> is a numpy
  float, so \<open>S1 / b\<close> at \<open>b = 0\<close> and the quotient of the two sums at a zero denominator are
  \<^verbatim>\<open>inf\<close> or \<^verbatim>\<open>nan\<close>, not exceptions.
\<close>

definition f :: "real list \<Rightarrow> real \<Rightarrow> real \<Rightarrow> real \<Rightarrow> real \<Rightarrow> real \<Rightarrow> error + real" where
  "f t T S0 S1 S2 b =
     (let num = sum_list (map (\<lambda>x. (T - x) * exp (- b * (T - x))) t);
          den = sum_list (map (\<lambda>x. 1 - exp (- b * (T - x))) t)
      in if b = 0 \<or> den = 0 then Inl NonFinite
         else Inr (S2 + S1 / b - S1 * (num / den)))"

text \<open>
  \<^verbatim>\<open>scipy.optimize.newton\<close> is a library routine, not part of the repository: the driver
  takes the root finder as a parameter \<open>newton\<close>, called with the objective and the
  starting point. For runs on concrete inputs, \<open>scipy_newton\<close> follows what the library
  does when it is called, as here, without a derivative, in the SciPy releases this
  Python 2 program was written for: the secant method from \<open>x0\<close> and
  \<open>x0 * (1 + 1e-4) + 1e-4\<close> (minus \<open>1e-4\<close> for a negative \<open>x0\<close>), with tolerance \<open>1.48e-8\<close> and
  at most 50 iterations. Equal function values at the two current points end the search
  at their midpoint (with a warning); a step shorter than the tolerance ends it at the new
  point; RuntimeError when the iterations are used up.
\<close>

fun secant_iter ::
  "(real \<Rightarrow> error + real) \<Rightarrow> nat \<Rightarrow> real \<Rightarrow> real \<Rightarrow> real \<Rightarrow> real \<Rightarrow> error + real" where
  "secant_iter func 0 p0 q0 p1 q1 = Inl RuntimeError"
| "secant_iter func (Suc k) p0 q0 p1 q1 =
     (if q1 = q0 then Inr ((p1 + p0) / 2)
      else let p = p1 - q1 * (p1 - p0) / (q1 - q0)
           in if \<bar>p - p1\<bar> < 148 / 10 ^ 10 then Inr p
              else bind (func p) (\<lambda>q. secant_iter func k p1 q1 p q))"

definition scipy_newton :: "(real \<Rightarrow> error + real) \<Rightarrow> real \<Rightarrow> error + real" where
  "scipy_newton func x0 =
     (let p0 = x0;
          p1 = (if x0 \<ge> 0 then x0 * (1 + 1 / 10 ^ 4) + 1 / 10 ^ 4
                else x0 * (1 + 1 / 10 ^ 4) - 1 / 10 ^ 4)
      in bind (func p0) (\<lambda>q0. bind (func p1) (\<lambda>q1. secant_iter func 50 p0 q0 p1 q1)))"

text \<open>
  The maximization, lines 194 to 200 of the loop body: the three statistics, then \<open>mu\<close>,
  \<open>b\<close> and \<open>a\<close>. \<open>S0\<close> is a numpy float, so the divisions are numpy's.
\<close>

definition m_step ::
  "((real \<Rightarrow> error + real) \<Rightarrow> real \<Rightarrow> error + real) \<Rightarrow> real list \<Rightarrow> real \<Rightarrow> ndarray \<Rightarrow> ndarray
     \<Rightarrow> real \<Rightarrow> error + real \<times> real \<times> real" where
  "m_step newton t T p dt b =
     (let S0 = np_sum (np_diag p);
          S1 = real (length t) - S0
      in bind (mul p dt) (\<lambda>pd.
           let S2 = - np_sum pd
           in if T = 0 then Inl NonFinite
              else let mu' = S0 / T
                   in bind (newton (f t T S0 S1 S2) b) (\<lambda>b'.
                        let den = sum_list (map (\<lambda>x. 1 - exp (- b' * (T - x))) t)
                        in if den = 0 then Inl NonFinite
                           else Inr (mu', b' * S1 / den, b'))))"

text \<open>One pass of the loop body: expectation, then maximization.\<close>

fun em_step ::
  "((real \<Rightarrow> error + real) \<Rightarrow> real \<Rightarrow> error + real) \<Rightarrow> real list \<Rightarrow> real \<Rightarrow> ndarray
     \<Rightarrow> real \<times> real \<times> real \<Rightarrow> error + real \<times> real \<times> real \<times> ndarray" where
  "em_step newton t T dt (mu, a, b) =
     bind (StructProbMatrix dt mu a b) (\<lambda>p.
     bind (m_step newton t T p dt b) (\<lambda>(mu', a', b'). Inr (mu', a', b', p)))"

text \<open>
  The loop \<^verbatim>\<open>for _ in xrange(niter)\<close>. The variable \<open>p\<close> is bound by the first pass only:
  it is an option in the loop state.
\<close>

fun em_loop ::
  "((real \<Rightarrow> error + real) \<Rightarrow> real \<Rightarrow> error + real) \<Rightarrow> real list \<Rightarrow> real \<Rightarrow> ndarray \<Rightarrow> nat
     \<Rightarrow> real \<times> real \<times> real \<Rightarrow> ndarray option
     \<Rightarrow> error + (real \<times> real \<times> real) \<times> ndarray option" where
  "em_loop newton t T dt 0 st p = Inr (st, p)"
| "em_loop newton t T dt (Suc k) st p =
     bind (em_step newton t T dt st) (\<lambda>(mu', a', b', p').
       em_loop newton t T dt k (mu', a', b') (Some p'))"

text \<open>
  \<^verbatim>\<open>ExpectationMaximization(t, niter, mu0, a0, b0)\<close> with the default \<^verbatim>\<open>callback=None\<close>
  (the callback only observes a pass; its result is not used). \<^verbatim>\<open>t[-1]\<close> raises on an
  empty \<open>t\<close>; the final \<^verbatim>\<open>return mu, a, b, p\<close> raises when no pass has bound \<open>p\<close>. The
  source has no other check of the input.
\<close>

definition ExpectationMaximization ::
  "((real \<Rightarrow> error + real) \<Rightarrow> real \<Rightarrow> error + real) \<Rightarrow> real list \<Rightarrow> nat \<Rightarrow> real \<Rightarrow> real \<Rightarrow> real
     \<Rightarrow> error + real \<times> real \<times> real \<times> ndarray" where
  "ExpectationMaximization newton t niter mu0 a0 b0 =
     (if t = [] then Inl IndexError
      else let T = last t - hd t;
               dt = TDMatrix t
           in bind (em_loop newton t T dt niter (mu0, a0, b0) None) (\<lambda>((mu, a, b), p).
                case p of None \<Rightarrow> Inl UnboundLocalError
                        | Some p \<Rightarrow> Inr (mu, a, b, p)))"

section \<open>Notions used to state the properties\<close>

text \<open>The n-by-n array with entry \<open>h i j\<close> at row \<open>i\<close>, column \<open>j\<close>.\<close>

definition mk :: "nat \<Rightarrow> (nat \<Rightarrow> nat \<Rightarrow> real) \<Rightarrow> real list list" where
  "mk n h = map (\<lambda>i. map (\<lambda>j. h i j) [0..<n]) [0..<n]"

text \<open>
  The weights of the E-step before the rows are divided by their sums, for gaps \<open>d i j\<close>:
  \<open>mu\<close> on the diagonal, the kernel \<open>a * exp (- b * gap)\<close> below it, 0 above it.
\<close>

definition weight :: "real \<Rightarrow> real \<Rightarrow> real \<Rightarrow> (nat \<Rightarrow> nat \<Rightarrow> real) \<Rightarrow> nat \<Rightarrow> nat \<Rightarrow> real" where
  "weight mu a b d i j = (if i = j then mu else if i < j then 0 else a * exp (- b * d i j))"

text \<open>The causal gap of the pair \<open>(i, j)\<close>: \<open>t[i] - t[j]\<close> for \<open>j \<le> i\<close>, 0 above the diagonal.\<close>

definition gap :: "real list \<Rightarrow> nat \<Rightarrow> nat \<Rightarrow> real" where
  "gap t i j = (if j \<le> i then t ! i - t ! j else 0)"

text \<open>
  The weights of \<open>StructProbMatrixFromTime\<close> before the rows are divided by their sums:
  \<open>mu / a * exp (b * t[i])\<close> on the diagonal, \<open>exp (b * t[j])\<close> below it, 0 above it.
\<close>

definition weight_time :: "real \<Rightarrow> real \<Rightarrow> real \<Rightarrow> real list \<Rightarrow> nat \<Rightarrow> nat \<Rightarrow> real" where
  "weight_time mu a b t i j =
     (if i = j then mu / a * exp (b * t ! i) else if i < j then 0 else exp (b * t ! j))"

section \<open>Closed forms of the array operations\<close>

lemma length_mk: "length (mk n h) = n" by (simp add: mk_def)
lemma nth_mk: "i < n \<Longrightarrow> mk n h ! i = map (h i) [0..<n]" by (simp add: mk_def)
lemma nth_nth_mk: "i < n \<Longrightarrow> j < n \<Longrightarrow> mk n h ! i ! j = h i j" by (simp add: mk_def)
lemma mk_cong: "(\<And>i j. i < n \<Longrightarrow> j < n \<Longrightarrow> h i j = h' i j) \<Longrightarrow> mk n h = mk n h'"
  by (simp add: mk_def)

lemma td_row:
  "i < length M \<Longrightarrow> k \<le> length (M ! i) \<Longrightarrow>
   fold (td_store t i) [0..<k] M
     = M[i := map (\<lambda>j. if j < k then t ! i - t ! j else M ! i ! j) [0..<length (M ! i)]]"
proof (induction k)
  case 0
  then show ?case by (simp add: map_nth)
next
  case (Suc k)
  let ?r = "\<lambda>k. map (\<lambda>j. if j < k then t ! i - t ! j else M ! i ! j) [0..<length (M ! i)]"
  have IH: "fold (td_store t i) [0..<k] M = M[i := ?r k]"
    using Suc by simp
  have upd: "(?r k)[k := t ! i - t ! k] = ?r (Suc k)"
    by (rule nth_equalityI) (auto simp: nth_list_update less_Suc_eq)
  have "fold (td_store t i) [0..<Suc k] M = td_store t i k (M[i := ?r k])"
    using IH by simp
  also have "\<dots> = M[i := (?r k)[k := t ! i - t ! k]]"
    using Suc.prems by (simp add: td_store_def)
  finally show ?case by (simp only: upd)
qed

lemma td_rows:
  "m \<le> n \<Longrightarrow>
   fold (\<lambda>i dt. fold (td_store t i) [0..<i + 1] dt) [0..<m] (replicate n (replicate n 0))
     = mk n (\<lambda>i j. if i < m \<and> j \<le> i then t ! i - t ! j else 0)"
proof (induction m)
  case 0
  show ?case by (intro nth_equalityI) (auto simp: length_mk nth_mk)
next
  case (Suc m)
  let ?M = "mk n (\<lambda>i j. if i < m \<and> j \<le> i then t ! i - t ! j else 0)"
  have m: "m < n" using Suc.prems by simp
  have IH: "fold (\<lambda>i dt. fold (td_store t i) [0..<i + 1] dt) [0..<m]
              (replicate n (replicate n 0)) = ?M"
    using Suc by simp
  have row: "fold (td_store t m) [0..<m + 1] ?M
      = ?M[m := map (\<lambda>j. if j < m + 1 then t ! m - t ! j else ?M ! m ! j) [0..<length (?M ! m)]]"
    by (rule td_row) (use m in \<open>simp_all add: length_mk nth_mk\<close>)
  have "fold (\<lambda>i dt. fold (td_store t i) [0..<i + 1] dt) [0..<Suc m]
          (replicate n (replicate n 0))
        = fold (td_store t m) [0..<m + 1] ?M"
    using IH by (simp del: upt_Suc add: upt_Suc_append)
  also have "\<dots> = mk n (\<lambda>i j. if i < Suc m \<and> j \<le> i then t ! i - t ! j else 0)"
    unfolding row using m
    by (intro nth_equalityI) (auto simp: length_mk nth_mk nth_list_update)
  finally show ?case .
qed

lemma TDMatrix_mk: "TDMatrix t = Mat (mk (length t) (\<lambda>i j. if j \<le> i then t ! i - t ! j else 0))"
proof -
  have "fold (\<lambda>i dt. fold (td_store t i) [0..<i + 1] dt) [0..<length t]
          (replicate (length t) (replicate (length t) 0))
        = mk (length t) (\<lambda>i j. if i < length t \<and> j \<le> i then t ! i - t ! j else 0)"
    by (rule td_rows) simp
  also have "\<dots> = mk (length t) (\<lambda>i j. if j \<le> i then t ! i - t ! j else 0)"
    by (rule mk_cong) simp
  finally show ?thesis by (simp only: TDMatrix_def Let_def)
qed


lemma in_triu: "(i, j) \<in> set (triu_indices n) \<longleftrightarrow> i \<le> j \<and> j < n"
  by (force simp: triu_indices_def)

lemma in_diag: "(i, j) \<in> set (diag_indices n) \<longleftrightarrow> i = j \<and> i < n"
  by (auto simp: diag_indices_def)

lemma imap2_mk: "imap2 g (mk n h) = mk n (\<lambda>i j. g i j (h i j))"
  by (simp add: imap2_def mk_def)

lemma bounds_triu: "list_all (in_bounds (mk n h)) (triu_indices n)"
  by (auto simp: list_all_iff in_bounds_def in_triu length_mk nth_mk)

lemma bounds_diag: "list_all (in_bounds (mk n h)) (diag_indices n)"
  by (auto simp: list_all_iff in_bounds_def in_diag length_mk nth_mk)

lemma amap_mk: "amap g (Mat (mk n h)) = Mat (mk n (\<lambda>i j. g (h i j)))"
  by (simp add: mk_def)

lemma setitem_triu_mk:
  "setitem (Mat (mk n h)) (triu_indices n) v = Inr (Mat (mk n (\<lambda>i j. if i \<le> j then v else h i j)))"
  by (simp add: bounds_triu imap2_mk in_triu cong: mk_cong)

lemma setitem_diag_mk:
  "setitem (Mat (mk n h)) (diag_indices n) v = Inr (Mat (mk n (\<lambda>i j. if i = j then v else h i j)))"
  by (simp add: bounds_diag imap2_mk in_diag cong: mk_cong)

lemma sum_axis1_mk:
  "sum_axis1 (Mat (mk n h)) = Inr (map (\<lambda>i. sum_list (map (h i) [0..<n])) [0..<n])"
  by (simp add: mk_def)

lemma zip_mk: "zip (mk n h) (map s [0..<n]) = map (\<lambda>i. (map (h i) [0..<n], s i)) [0..<n]"
  by (rule nth_equalityI) (simp_all add: length_mk nth_mk)

lemma div_rows_mk:
  assumes "\<And>i. i < n \<Longrightarrow> s i \<noteq> 0"
  shows "div_rows (Mat (mk n h)) (map s [0..<n]) = Inr (Mat (mk n (\<lambda>i j. h i j / s i)))"
proof -
  have "\<not> list_ex (\<lambda>(r, d). r \<noteq> [] \<and> d = 0) (zip (mk n h) (map s [0..<n]))"
    using assms by (auto simp: zip_mk list_ex_iff)
  then show ?thesis
    by (simp add: length_mk zip_mk) (simp add: mk_def)
qed

lemma sum_list_upt: "sum_list (map g [0..<n]) = sum g {..<n}"
  by (simp add: interv_sum_list_conv_sum_set_nat atLeast0LessThan)

lemma SPM_mk:
  assumes nz: "\<And>i. i < n \<Longrightarrow> sum (weight mu a b d i) {..<n} \<noteq> 0"
  shows "StructProbMatrix (Mat (mk n d)) mu a b
           = Inr (Mat (mk n (\<lambda>i j. weight mu a b d i j / sum (weight mu a b d i) {..<n})))"
proof -
  have 1: "mk n (\<lambda>i j. if i = j then mu else if i \<le> j then 0 else a * exp (- b * d i j))
             = mk n (weight mu a b d)"
    by (rule mk_cong) (simp add: weight_def)
  have 2: "div_rows (Mat (mk n (weight mu a b d)))
              (map (\<lambda>i. sum (weight mu a b d i) {..<n}) [0..<n])
            = Inr (Mat (mk n (\<lambda>i j. weight mu a b d i j / sum (weight mu a b d i) {..<n})))"
    by (rule div_rows_mk) (rule nz)
  show ?thesis
    unfolding StructProbMatrix_def Let_def amap_mk shape0.simps length_mk
    by (simp only: setitem_triu_mk setitem_diag_mk bind_def sum.case shape0.simps length_mk 1
        sum_axis1_mk sum_list_upt 2)
qed

lemma weight_nonneg: "0 \<le> mu \<Longrightarrow> 0 \<le> a \<Longrightarrow> 0 \<le> weight mu a b d i j"
  by (simp add: weight_def)

lemma weight_sum_pos:
  assumes "0 < mu" "0 \<le> a" "i < n"
  shows "0 < sum (weight mu a b d i) {..<n}"
proof -
  have "mu = weight mu a b d i i" by (simp add: weight_def)
  also have "\<dots> \<le> sum (weight mu a b d i) {..<n}"
    using assms by (intro member_le_sum) (auto simp: weight_nonneg)
  finally show ?thesis using assms by simp
qed

lemma weight_le_sum:
  assumes "0 \<le> mu" "0 \<le> a" "j < n"
  shows "weight mu a b d i j \<le> sum (weight mu a b d i) {..<n}"
  using assms by (intro member_le_sum) (auto simp: weight_nonneg)

lemma TDMatrix_gap: "TDMatrix t = Mat (mk (length t) (gap t))"
  unfolding TDMatrix_mk gap_def ..

lemma SPM_TD:
  assumes "0 < mu" "0 \<le> a"
  shows "StructProbMatrix (TDMatrix t) mu a b
     = Inr (Mat (mk (length t) (\<lambda>i j. weight mu a b (gap t) i j / sum (weight mu a b (gap t) i) {..<length t})))"
proof -
  have "sum (weight mu a b (gap t) i) {..<length t} \<noteq> 0" if "i < length t" for i
    using weight_sum_pos[OF assms that, of b "gap t"] by simp
  then show ?thesis by (simp add: SPM_mk TDMatrix_gap)
qed

section \<open>The properties\<close>

text \<open>
  C6. For every timestamp sequence \<open>t\<close> of length \<open>n\<close>, \<open>TDMatrix t\<close> is an n-by-n matrix whose
  entry \<open>(i, j)\<close> is exactly \<open>t[i] - t[j]\<close> for \<open>j \<le> i\<close> and 0 for \<open>j > i\<close>.
\<close>

theorem TDMatrix_entries:
  "TDMatrix t = Mat (mk (length t) (gap t)) \<and>
   length (mk (length t) (gap t)) = length t \<and>
   (\<forall>i<length t. length (mk (length t) (gap t) ! i) = length t \<and>
      (\<forall>j<length t. mk (length t) (gap t) ! i ! j = (if j \<le> i then t ! i - t ! j else 0)))"
  by (simp add: TDMatrix_gap length_mk nth_mk gap_def)

theorem TDMatrix_entries_witness:
  "TDMatrix [0, 1, 3] = Mat [[0, 0, 0], [1, 0, 0], [3, 2, 0]]"
  using TDMatrix_entries [of "[0, 1, 3]"]
  by (simp add: mk_def gap_def upt_rec)

text \<open>
  C1. For a strictly increasing, non-empty \<open>t\<close> and positive \<open>mu\<close>, \<open>a\<close>, \<open>b\<close>, the E-step on
  the time-difference matrix of \<open>t\<close> returns a matrix of the size of \<open>t\<close> in which every row
  sums to 1, every entry lies between 0 and 1, every entry above the diagonal is 0, and the
  first row has its whole mass on the diagonal.
\<close>

theorem StructProbMatrix_stochastic:
  assumes "sorted_wrt (<) t" and "t \<noteq> []" and "0 < mu" and "0 < a" and "0 < b"
  shows "\<exists>P. StructProbMatrix (TDMatrix t) mu a b = Inr (Mat P) \<and> length P = length t \<and>
           (\<forall>i<length t. length (P ! i) = length t \<and> sum_list (P ! i) = 1 \<and>
              (\<forall>j<length t. 0 \<le> P ! i ! j \<and> P ! i ! j \<le> 1 \<and> (i < j \<longrightarrow> P ! i ! j = 0))) \<and>
           P ! 0 ! 0 = 1"
proof -
  let ?n = "length t"
  let ?w = "weight mu a b (gap t)"
  let ?P = "mk ?n (\<lambda>i j. ?w i j / sum (?w i) {..<?n})"
  have mu: "0 \<le> mu" and a: "0 \<le> a" using assms by simp_all
  have n: "0 < ?n" using assms by simp
  have run: "StructProbMatrix (TDMatrix t) mu a b = Inr (Mat ?P)"
    using assms by (simp add: SPM_TD)
  have pos: "0 < sum (?w i) {..<?n}" if "i < ?n" for i
    using weight_sum_pos[OF \<open>0 < mu\<close> a that] .
  have rowsum: "sum_list (?P ! i) = 1" if "i < ?n" for i
  proof -
    have "sum_list (?P ! i) = (\<Sum>j<?n. ?w i j / sum (?w i) {..<?n})"
      using that by (simp add: nth_mk sum_list_upt)
    also have "\<dots> = sum (?w i) {..<?n} / sum (?w i) {..<?n}"
      by (rule sum_divide_distrib [symmetric])
    finally show ?thesis using pos[OF that] by simp
  qed
  have entry: "0 \<le> ?P ! i ! j \<and> ?P ! i ! j \<le> 1 \<and> (i < j \<longrightarrow> ?P ! i ! j = 0)"
    if "i < ?n" "j < ?n" for i j
  proof -
    have "?w i j \<le> sum (?w i) {..<?n}" using weight_le_sum[OF mu a that(2)] .
    moreover have "0 \<le> ?w i j" using weight_nonneg[OF mu a] .
    moreover have "i < j \<Longrightarrow> ?w i j = 0" by (simp add: weight_def)
    ultimately show ?thesis using that pos[OF that(1)] by (simp add: nth_nth_mk)
  qed
  have first: "?P ! 0 ! 0 = 1"
  proof -
    have "sum (?w 0) {..<?n} = (\<Sum>j<?n. if j = 0 then mu else 0)"
      by (rule sum.cong) (auto simp: weight_def)
    also have "\<dots> = mu" using n by simp
    finally show ?thesis using n assms by (simp add: nth_nth_mk weight_def)
  qed
  show ?thesis
    using run rowsum entry first by (intro exI[of _ ?P]) (simp add: length_mk nth_mk)
qed

theorem StructProbMatrix_stochastic_witness:
  "sorted_wrt (<) [0, 1 :: real] \<and>
   (\<exists>P. StructProbMatrix (TDMatrix [0, 1]) 1 1 1 = Inr (Mat P) \<and>
        sum_list (P ! 1) = 1 \<and> 0 \<le> P ! 1 ! 0 \<and> P ! 1 ! 0 \<le> 1 \<and> P ! 0 ! 1 = 0 \<and> P ! 0 ! 0 = 1)"
proof -
  have h: "sorted_wrt (<) [0, 1 :: real]" "[0, 1 :: real] \<noteq> []" "0 < (1 :: real)"
    by simp_all
  from StructProbMatrix_stochastic [OF h(1) h(2) h(3) h(3) h(3)]
  obtain P where P: "StructProbMatrix (TDMatrix [0, 1]) 1 1 1 = Inr (Mat P)"
    and all: "\<forall>i<length [0, 1 :: real]. length (P ! i) = length [0, 1 :: real] \<and> sum_list (P ! i) = 1 \<and>
              (\<forall>j<length [0, 1 :: real]. 0 \<le> P ! i ! j \<and> P ! i ! j \<le> 1 \<and> (i < j \<longrightarrow> P ! i ! j = 0))"
    and first: "P ! 0 ! 0 = 1"
    by blast
  from all have "sum_list (P ! 1) = 1" "0 \<le> P ! 1 ! 0" "P ! 1 ! 0 \<le> 1" "P ! 0 ! 1 = 0"
    by simp_all
  with P first h(1) show ?thesis by blast
qed

lemma sparse_inner:
  "length row = length col \<Longrightarrow> length col = length dat \<Longrightarrow>
   \<exists>row' col' dat'. fold (sparse_store t m i) js (row, col, dat) = (row', col', dat') \<and>
      length row' = length col' \<and> length col' = length dat' \<and>
      zip row' (zip col' dat')
        = zip row (zip col dat)
          @ map (\<lambda>j. (i, j, t ! i - t ! j)) (filter (\<lambda>j. m \<le> t ! i - t ! j) js)"
proof (induction js arbitrary: row col dat)
  case Nil
  then show ?case by simp
next
  case (Cons j js)
  show ?case
  proof (cases "m \<le> t ! i - t ! j")
    case True
    have "length (row @ [i]) = length (col @ [j])" "length (col @ [j]) = length (dat @ [t ! i - t ! j])"
      using Cons.prems by simp_all
    from Cons.IH[OF this] show ?thesis
      using True Cons.prems by (simp add: Let_def)
  next
    case False
    from Cons.IH[OF Cons.prems] show ?thesis
      using False by (simp add: Let_def)
  qed
qed

lemma sparse_outer:
  "length row = length col \<Longrightarrow> length col = length dat \<Longrightarrow>
   \<exists>row' col' dat'.
      fold (\<lambda>i acc. fold (sparse_store t m i) [0..<i + 1] acc) is (row, col, dat) = (row', col', dat') \<and>
      length row' = length col' \<and> length col' = length dat' \<and>
      zip row' (zip col' dat')
        = zip row (zip col dat)
          @ concat (map (\<lambda>i. map (\<lambda>j. (i, j, t ! i - t ! j))
                                 (filter (\<lambda>j. m \<le> t ! i - t ! j) [0..<i + 1])) is)"
proof (induction "is" arbitrary: row col dat)
  case Nil
  then show ?case by simp
next
  case (Cons i "is")
  from sparse_inner[OF Cons.prems, of t m i "[0..<i + 1]"]
  obtain r c d where 1: "fold (sparse_store t m i) [0..<i + 1] (row, col, dat) = (r, c, d)"
    and 2: "length r = length c" "length c = length d"
    and 3: "zip r (zip c d) = zip row (zip col dat)
          @ map (\<lambda>j. (i, j, t ! i - t ! j)) (filter (\<lambda>j. m \<le> t ! i - t ! j) [0..<i + 1])"
    by blast
  from Cons.IH[OF 2] show ?case
    using 1 3 by (simp del: upt_Suc)
qed

lemma SparseTDMatrix_entries:
  "csr_entries (SparseTDMatrix t m)
     = concat (map (\<lambda>i. map (\<lambda>j. (i, j, t ! i - t ! j))
                            (filter (\<lambda>j. m \<le> t ! i - t ! j) [0..<i + 1])) [0..<length t]) \<and>
   length (csr_row (SparseTDMatrix t m)) = length (csr_data (SparseTDMatrix t m)) \<and>
   length (csr_col (SparseTDMatrix t m)) = length (csr_data (SparseTDMatrix t m))"
proof -
  from sparse_outer[of "[]" "[]" "[]" t m "[0..<length t]"]
  obtain r c d where
    1: "fold (\<lambda>i acc. fold (sparse_store t m i) [0..<i + 1] acc) [0..<length t] ([], [], []) = (r, c, d)"
    and 2: "length r = length c" "length c = length d"
    and 3: "zip r (zip c d) = concat (map (\<lambda>i. map (\<lambda>j. (i, j, t ! i - t ! j))
                            (filter (\<lambda>j. m \<le> t ! i - t ! j) [0..<i + 1])) [0..<length t])"
    by auto
  show ?thesis
    unfolding SparseTDMatrix_def csr_entries_def Let_def 1 using 2 3 by simp
qed

lemma SparseTDMatrix_set:
  "set (csr_entries (SparseTDMatrix t m))
     = {(i, j, v). i < length t \<and> j \<le> i \<and> m \<le> t ! i - t ! j \<and> v = t ! i - t ! j}"
proof -
  have "set (csr_entries (SparseTDMatrix t m))
      = (\<Union>i\<in>{0..<length t}. (\<lambda>j. (i, j, t ! i - t ! j)) ` {j. j < i + 1 \<and> m \<le> t ! i - t ! j})"
    by (auto simp del: upt_Suc simp add: SparseTDMatrix_entries)
  also have "\<dots> = {(i, j, v). i < length t \<and> j \<le> i \<and> m \<le> t ! i - t ! j \<and> v = t ! i - t ! j}"
    by (auto simp: less_Suc_eq_le)
  finally show ?thesis .
qed

text \<open>
  C7. For every timestamp sequence \<open>t\<close> and threshold \<open>max_td\<close>, the entries stored by
  \<open>SparseTDMatrix t max_td\<close> are exactly the pairs \<open>(i, j)\<close>, \<open>j \<le> i\<close>, with
  \<open>t[i] - t[j] \<ge> max_td\<close>, each with the value \<open>t[i] - t[j]\<close> (the three lists have one
  length, so no entry is lost); for \<open>t = [0, 1, 2, 10]\<close> and \<open>max_td = 5\<close> the stored index
  set is \<open>{(3, 0), (3, 1), (3, 2)}\<close>.
\<close>

theorem SparseTDMatrix_index_set:
  "set (csr_entries (SparseTDMatrix t max_td))
     = {(i, j, v). i < length t \<and> j \<le> i \<and> max_td \<le> t ! i - t ! j \<and> v = t ! i - t ! j} \<and>
   length (csr_row (SparseTDMatrix t max_td)) = length (csr_data (SparseTDMatrix t max_td)) \<and>
   length (csr_col (SparseTDMatrix t max_td)) = length (csr_data (SparseTDMatrix t max_td)) \<and>
   csr_entries (SparseTDMatrix [0, 1, 2, 10] 5) = [(3, 0, 10), (3, 1, 9), (3, 2, 8)] \<and>
   set (zip (csr_row (SparseTDMatrix [0, 1, 2, 10] 5)) (csr_col (SparseTDMatrix [0, 1, 2, 10] 5)))
     = {(3, 0), (3, 1), (3, 2)}"
proof -
  let ?S = "SparseTDMatrix [0, 1, 2, 10] 5"
  have e: "csr_entries ?S = [(3, 0, 10), (3, 1, 9), (3, 2, 8)]"
    by (simp add: SparseTDMatrix_entries upt_rec)
  have l: "length (csr_row ?S) = length (csr_data ?S)" "length (csr_col ?S) = length (csr_data ?S)"
    by (simp_all add: SparseTDMatrix_entries)
  have "zip (csr_row ?S) (csr_col ?S) = map (\<lambda>(i, j, v). (i, j)) (csr_entries ?S)"
    unfolding csr_entries_def using l
    by (intro nth_equalityI) simp_all
  then have "set (zip (csr_row ?S) (csr_col ?S)) = {(3, 0), (3, 1), (3, 2)}"
    by (simp add: e)
  with e show ?thesis
    using SparseTDMatrix_set [of t max_td] SparseTDMatrix_entries [of t max_td] by blast
qed

text \<open>
  C10. \<open>SparseStructProbMatrix\<close> fails with IndexError on every sparse matrix with at least
  one stored entry: its array \<open>p\<close> is one-dimensional, and the assignment through the pair of
  index arrays \<open>diag_indices\<close> has too many indices for it. It never returns a matrix.
\<close>

theorem SparseStructProbMatrix_fails:
  "csr_data dt \<noteq> [] \<Longrightarrow> SparseStructProbMatrix dt mu a b = Inl IndexError"
  by (simp add: SparseStructProbMatrix_def bind_def)


theorem SparseStructProbMatrix_fails_witness:
  "csr_data (SparseTDMatrix [0, 1, 2, 10] 5) \<noteq> [] \<and>
   SparseStructProbMatrix (SparseTDMatrix [0, 1, 2, 10] 5) (9 / 10) (8 / 10) (1 / 2) = Inl IndexError"
proof -
  have "map (\<lambda>(i, j, v). v) (csr_entries (SparseTDMatrix [0, 1, 2, 10] 5)) = [10, 9, 8]"
    by (simp add: SparseTDMatrix_entries upt_rec)
  then have h: "csr_data (SparseTDMatrix [0, 1, 2, 10] 5) \<noteq> []"
    by (auto simp: csr_entries_def)
  show ?thesis
    using h SparseStructProbMatrix_fails [OF h] by simp
qed

lemma replicate_mk: "replicate (length t) (map g t) = mk (length t) (\<lambda>i j. g (t ! j))"
  by (intro nth_equalityI) (simp_all add: length_mk nth_mk)

lemma distinct_diag: "distinct (diag_indices n)"
  by (simp add: diag_indices_def distinct_map inj_on_def)

lemma map_of_diag:
  assumes "length vals = n"
  shows "map_of (rev (zip (diag_indices n) vals)) (i, j)
           = (if i = j \<and> i < n then Some (vals ! i) else None)"
proof -
  let ?kv = "rev (zip (diag_indices n) vals)"
  have len: "length (diag_indices n) = n" by (simp add: diag_indices_def)
  have fst: "map fst (zip (diag_indices n) vals) = diag_indices n"
    using assms len by (simp add: map_fst_zip)
  have d: "distinct (map fst ?kv)"
    using distinct_diag[of n] by (simp add: rev_map[symmetric] fst)
  show ?thesis
  proof (cases "i = j \<and> i < n")
    case True
    then have "((i, j), vals ! i) \<in> set ?kv"
      using assms len by (auto simp: in_set_zip diag_indices_def intro!: exI[of _ i])
    then show ?thesis using True d by simp
  next
    case False
    then have "(i, j) \<notin> fst ` set ?kv"
      using fst in_diag[of i j n] by (metis set_map set_rev)
    then have "map_of ?kv (i, j) = None"
      using map_of_eq_None_iff[of ?kv "(i, j)"] by blast
    then show ?thesis using False by simp
  qed
qed

lemma setitem_arr_diag_mk:
  assumes "length vals = n"
  shows "setitem_arr (Mat (mk n h)) (diag_indices n) vals
           = Inr (Mat (mk n (\<lambda>i j. if i = j then vals ! i else h i j)))"
proof -
  have len: "length (diag_indices n) = n" by (simp add: diag_indices_def)
  have "imap2 (\<lambda>i j x. case map_of (rev (zip (diag_indices n) vals)) (i, j) of
                          Some v \<Rightarrow> v | None \<Rightarrow> x) (mk n h)
          = mk n (\<lambda>i j. if i = j then vals ! i else h i j)"
    unfolding imap2_mk by (rule mk_cong) (simp add: map_of_diag[OF assms])
  then show ?thesis
    using assms len by (simp add: bounds_diag)
qed

lemma SPMT_mk:
  assumes a: "a \<noteq> 0"
    and nz: "\<And>i. i < length t \<Longrightarrow> sum (weight_time mu a b t i) {..<length t} \<noteq> 0"
  shows "StructProbMatrixFromTime t mu a b
           = Inr (Mat (mk (length t) (\<lambda>i j. weight_time mu a b t i j
                                            / sum (weight_time mu a b t i) {..<length t})))"
proof -
  let ?n = "length t"
  let ?vals = "map (\<lambda>x. mu / a * exp (b * x)) t"
  have 1: "setitem (Mat (mk ?n (\<lambda>i j. exp (b * t ! j)))) (triu_indices ?n) 0
             = Inr (Mat (mk ?n (\<lambda>i j. if i \<le> j then 0 else exp (b * t ! j))))"
    by (rule setitem_triu_mk)
  have 2: "setitem_arr (Mat (mk ?n (\<lambda>i j. if i \<le> j then 0 else exp (b * t ! j))))
              (diag_indices ?n) ?vals
             = Inr (Mat (mk ?n (\<lambda>i j. if i = j then ?vals ! i
                                       else if i \<le> j then 0 else exp (b * t ! j))))"
    by (rule setitem_arr_diag_mk) simp
  have 3: "mk ?n (\<lambda>i j. if i = j then ?vals ! i else if i \<le> j then 0 else exp (b * t ! j))
             = mk ?n (weight_time mu a b t)"
    by (rule mk_cong) (simp add: weight_time_def)
  have 4: "div_rows (Mat (mk ?n (weight_time mu a b t)))
              (map (\<lambda>i. sum (weight_time mu a b t i) {..<?n}) [0..<?n])
            = Inr (Mat (mk ?n (\<lambda>i j. weight_time mu a b t i j
                                       / sum (weight_time mu a b t i) {..<?n})))"
    by (rule div_rows_mk) (rule nz)
  show ?thesis
    unfolding StructProbMatrixFromTime_def Let_def replicate_mk
    using a by (simp only: 1 2 3 4 bind_def sum.case if_False sum_axis1_mk sum_list_upt)
qed

lemma weight_factor:
  assumes "a \<noteq> 0" "i < n" "j < n"
  shows "weight mu a b (gap t) i j = a * exp (- b * t ! i) * weight_time mu a b t i j"
proof -
  have "exp (- b * t ! i) * exp (b * t ! i) = 1"
    by (simp add: exp_add[symmetric])
  then have d: "a * exp (- b * t ! i) * (mu / a * exp (b * t ! i)) = mu"
    using assms by (simp add: field_simps)
  have "exp (- b * (t ! i - t ! j)) = exp (- b * t ! i) * exp (b * t ! j)"
    by (simp add: exp_add[symmetric] algebra_simps)
  then have e: "j < i \<Longrightarrow> a * exp (- b * (t ! i - t ! j)) = a * exp (- b * t ! i) * exp (b * t ! j)"
    by simp
  consider "i = j" | "i < j" | "j < i" by linarith
  then show ?thesis
  proof cases
    case 1
    then show ?thesis using d by (simp add: weight_def weight_time_def)
  next
    case 2
    then show ?thesis by (simp add: weight_def weight_time_def)
  next
    case 3
    then show ?thesis using e by (simp add: weight_def weight_time_def gap_def)
  qed
qed

text \<open>
  C9. For a strictly increasing \<open>t\<close> and positive \<open>mu\<close>, \<open>a\<close>, \<open>b\<close>, the alternate E-step
  \<open>StructProbMatrixFromTime t mu a b\<close> returns the same matrix as \<open>StructProbMatrix\<close> on the
  time-difference matrix of \<open>t\<close>: row \<open>i\<close> of the weights of the latter is the row of the
  former times \<open>a * exp (- b * t[i])\<close>, which the division by the row sum cancels.
\<close>

theorem StructProbMatrixFromTime_eq:
  assumes "sorted_wrt (<) t" and "0 < mu" and "0 < a" and "0 < b"
  shows "StructProbMatrixFromTime t mu a b = StructProbMatrix (TDMatrix t) mu a b \<and>
         (\<exists>P. StructProbMatrix (TDMatrix t) mu a b = Inr (Mat P))"
proof -
  let ?n = "length t"
  let ?w = "weight mu a b (gap t)" and ?v = "weight_time mu a b t"
  have a: "a \<noteq> 0" "0 \<le> a" using assms by simp_all
  have fac: "sum (?w i) {..<?n} = a * exp (- b * t ! i) * sum (?v i) {..<?n}" if "i < ?n" for i
    unfolding sum_distrib_left
    by (rule sum.cong) (use that a in \<open>simp_all add: weight_factor[of a i ?n]\<close>)
  have pos: "0 < sum (?w i) {..<?n}" if "i < ?n" for i
    using weight_sum_pos[OF \<open>0 < mu\<close> a(2) that] .
  have nz: "sum (?v i) {..<?n} \<noteq> 0" if "i < ?n" for i
    using pos[OF that] fac[OF that] by auto
  have "mk ?n (\<lambda>i j. ?v i j / sum (?v i) {..<?n}) = mk ?n (\<lambda>i j. ?w i j / sum (?w i) {..<?n})"
  proof (rule mk_cong)
    fix i j assume ij: "i < ?n" "j < ?n"
    have "?w i j / sum (?w i) {..<?n}
            = (a * exp (- b * t ! i) * ?v i j) / (a * exp (- b * t ! i) * sum (?v i) {..<?n})"
      by (simp only: fac[OF ij(1)] weight_factor[OF a(1) ij])
    also have "\<dots> = ?v i j / sum (?v i) {..<?n}"
      using a by simp
    finally show "?v i j / sum (?v i) {..<?n} = ?w i j / sum (?w i) {..<?n}" by simp
  qed
  then show ?thesis
    using SPMT_mk[OF a(1) nz] SPM_TD[OF \<open>0 < mu\<close> a(2), of t b] by simp
qed

theorem StructProbMatrixFromTime_eq_witness:
  "sorted_wrt (<) [0, 1, 3 :: real] \<and>
   StructProbMatrixFromTime [0, 1, 3] (9 / 10) (8 / 10) (1 / 2)
     = StructProbMatrix (TDMatrix [0, 1, 3]) (9 / 10) (8 / 10) (1 / 2)"
proof -
  have h: "sorted_wrt (<) [0, 1, 3 :: real]" "0 < (9 / 10 :: real)" "0 < (8 / 10 :: real)"
    "0 < (1 / 2 :: real)"
    by simp_all
  show ?thesis
    using h(1) StructProbMatrixFromTime_eq [OF h] by blast
qed

lemma mk_nth:
  assumes "length P = n" and "\<And>i. i < n \<Longrightarrow> length (P ! i) = n"
  shows "mk n (\<lambda>i j. P ! i ! j) = P"
proof (rule nth_equalityI)
  show "length (mk n (\<lambda>i j. P ! i ! j)) = length P" using assms by (simp add: length_mk)
next
  fix i assume "i < length (mk n (\<lambda>i j. P ! i ! j))"
  then have i: "i < n" by (simp add: length_mk)
  show "mk n (\<lambda>i j. P ! i ! j) ! i = P ! i"
    using i assms(2)[OF i] by (intro nth_equalityI) (simp_all add: nth_mk)
qed

lemma mul_mk:
  "mul (Mat (mk n p)) (Mat (mk n q)) = Inr (Mat (mk n (\<lambda>i j. p i j * q i j)))"
proof -
  have "map (\<lambda>(r, s). map (\<lambda>(x, y). x * y) (zip r s)) (zip (mk n p) (mk n q))
          = mk n (\<lambda>i j. p i j * q i j)"
    by (intro nth_equalityI) (simp_all add: length_mk nth_mk)
  moreover have "map length (mk n p) = map length (mk n q)"
    by (simp add: mk_def)
  ultimately show ?thesis by simp
qed

lemma np_sum_mk: "np_sum (Mat (mk n h)) = (\<Sum>i<n. \<Sum>j<n. h i j)"
proof -
  have "map sum_list (mk n h) = map (\<lambda>i. \<Sum>j<n. h i j) [0..<n]"
    by (simp add: mk_def sum_list_upt)
  then show ?thesis by (simp add: sum_list_upt)
qed

lemma ncols_mk: "ncols (mk n h) = n"
proof (cases n)
  case 0
  then show ?thesis by (simp add: ncols_def mk_def)
next
  case (Suc k)
  have "[0..<Suc k] = 0 # [Suc 0..<Suc k]" by (rule upt_conv_Cons) simp
  then show ?thesis using Suc by (simp add: ncols_def mk_def del: upt_Suc)
qed

lemma np_sum_diag_mk: "np_sum (np_diag (Mat (mk n h))) = (\<Sum>i<n. h i i)"
proof -
  have "map (\<lambda>i. mk n h ! i ! i) [0..<n] = map (\<lambda>i. h i i) [0..<n]"
    by (simp add: nth_nth_mk)
  then show ?thesis by (simp add: length_mk ncols_mk sum_list_upt)
qed

lemma sum_lower:
  fixes h :: "nat \<Rightarrow> real"
  assumes "i < n" and "\<And>j. j < n \<Longrightarrow> i < j \<Longrightarrow> h j = 0"
  shows "sum h {..<n} = sum h {..i}"
proof (rule sum.mono_neutral_right)
  show "finite {..<n}" by simp
  show "{..i} \<subseteq> {..<n}" using assms(1) by auto
  show "\<forall>j\<in>{..<n} - {..i}. h j = 0" using assms(2) by auto
qed

text \<open>
  C5. For a non-empty \<open>t\<close>, positive \<open>mu\<close>, \<open>a\<close>, \<open>b\<close> and n-by-n arrays \<open>p\<close> (a responsibility
  matrix: nothing above the diagonal) and \<open>dt\<close>, \<open>Q\<close> returns exactly
  \<open>log mu * S0 - mu * T + (sum over j \<le> i of p_ij * (log a - b * dt_ij))
   + a / b * (sum over i of exp (- b * (T - t_i)) - 1)\<close>,
  with \<open>S0\<close> the sum of the diagonal of \<open>p\<close> and \<open>T = t[n-1] - t[0]\<close>; the middle sum starts
  at \<open>j = 0\<close> and ends at \<open>j = i\<close>, so it includes the diagonal terms \<open>p_ii * log a\<close>. \<open>Q\<close> is
  a function of its arguments to a value: the source assigns to none of them.
\<close>

theorem Q_value:
  assumes "t \<noteq> []" and "0 < mu" and "0 < a" and "0 < b"
    and "length P = length t" and "\<forall>i<length t. length (P ! i) = length t"
    and "length D = length t" and "\<forall>i<length t. length (D ! i) = length t"
    and "\<forall>i<length t. \<forall>j<length t. i < j \<longrightarrow> P ! i ! j = 0"
  shows "Q mu a b t (Mat P) (Mat D)
     = Inr (ln mu * (\<Sum>i<length t. P ! i ! i) - mu * (last t - hd t)
            + (\<Sum>i<length t. \<Sum>j\<le>i. P ! i ! j * (ln a - b * D ! i ! j))
            + a / b * (\<Sum>i<length t. exp (- b * ((last t - hd t) - t ! i)) - 1))"
proof -
  let ?n = "length t"
  let ?p = "\<lambda>i j. P ! i ! j" and ?d = "\<lambda>i j. D ! i ! j"
  have P: "P = mk ?n ?p" using assms(5,6) by (simp add: mk_nth)
  have D: "D = mk ?n ?d" using assms(7,8) by (simp add: mk_nth)
  have m: "mul (Mat P) (amap (\<lambda>x. ln a - b * x) (Mat D))
             = Inr (Mat (mk ?n (\<lambda>i j. ?p i j * (ln a - b * ?d i j))))"
    by (subst P, subst D) (simp only: amap_mk mul_mk)
  have s: "np_sum (Mat (mk ?n (\<lambda>i j. ?p i j * (ln a - b * ?d i j))))
             = (\<Sum>i<?n. \<Sum>j\<le>i. ?p i j * (ln a - b * ?d i j))"
    unfolding np_sum_mk
  proof (rule sum.cong)
    fix i assume "i \<in> {..<?n}"
    then have i: "i < ?n" by simp
    show "(\<Sum>j<?n. ?p i j * (ln a - b * ?d i j)) = (\<Sum>j\<le>i. ?p i j * (ln a - b * ?d i j))"
      by (rule sum_lower[OF i]) (use assms(9) i in simp)
  qed simp
  have g: "np_sum (np_diag (Mat P)) = (\<Sum>i<?n. ?p i i)"
    by (subst P) (rule np_sum_diag_mk)
  have e: "sum_list (map (\<lambda>x. exp (- b * (last t - hd t - x)) - 1) t)
             = (\<Sum>i<?n. exp (- b * ((last t - hd t) - t ! i)) - 1)"
  proof -
    have "map (\<lambda>x. exp (- b * (last t - hd t - x)) - 1) t
            = map (\<lambda>i. exp (- b * ((last t - hd t) - t ! i)) - 1) [0..<?n]"
      by (intro nth_equalityI) simp_all
    then show ?thesis by (simp only: sum_list_upt)
  qed
  have c: "(t = []) = False" "(b = 0) = False" "(mu \<le> 0 \<or> a \<le> 0) = False"
    using assms(1-4) by auto
  show ?thesis
    unfolding Q_def Let_def m bind_def sum.case c if_False s g e by (rule refl)
qed

theorem Q_value_witness:
  "Q 1 1 1 [0, 1] (Mat [[1, 0], [1 / 2, 1 / 2]]) (Mat [[0, 0], [1, 0]]) = Inr (exp (- 1) - 5 / 2)"
proof -
  have 1: "{..<length [0, 1 :: real]} = {0, 1}" by auto
  have 2: "{..(1::nat)} = {0, 1}" by auto
  have "Q 1 1 1 [0, 1] (Mat [[1, 0], [1 / 2, 1 / 2]]) (Mat [[0, 0], [1, 0]])
     = Inr (ln 1 * (\<Sum>i<length [0, 1 :: real]. [[1, 0], [1 / 2, 1 / 2]] ! i ! i) - 1 * (last [0, 1] - hd [0, 1])
            + (\<Sum>i<length [0, 1 :: real]. \<Sum>j\<le>i. [[1, 0], [1 / 2, 1 / 2]] ! i ! j * (ln 1 - 1 * [[0, 0], [1, 0]] ! i ! j))
            + 1 / 1 * (\<Sum>i<length [0, 1 :: real]. exp (- 1 * ((last [0, 1] - hd [0, 1]) - [0, 1] ! i)) - 1))"
    by (rule Q_value) (simp_all add: less_Suc_eq)
  then show ?thesis
    unfolding 1 by (simp add: 2)
qed

lemma div_rows_mk_zero:
  assumes "i < n" and "s i = 0"
  shows "div_rows (Mat (mk n h)) (map s [0..<n]) = Inl NonFinite"
proof -
  have "(map (h i) [0..<n], s i) \<in> set (zip (mk n h) (map s [0..<n]))"
    using assms(1) by (auto simp: zip_mk)
  moreover have "map (h i) [0..<n] \<noteq> []" using assms(1) by auto
  ultimately have "list_ex (\<lambda>(r, d). r \<noteq> [] \<and> d = 0) (zip (mk n h) (map s [0..<n]))"
    using assms(2) unfolding list_ex_iff by (intro bexI[of _ "(map (h i) [0..<n], s i)"]) auto
  then show ?thesis by (simp add: length_mk)
qed

lemma SPM_mk_zero:
  assumes "i < n" and "sum (weight mu a b d i) {..<n} = 0"
  shows "StructProbMatrix (Mat (mk n d)) mu a b = Inl NonFinite"
proof -
  have 1: "mk n (\<lambda>i j. if i = j then mu else if i \<le> j then 0 else a * exp (- b * d i j))
             = mk n (weight mu a b d)"
    by (rule mk_cong) (simp add: weight_def)
  have 2: "div_rows (Mat (mk n (weight mu a b d)))
              (map (\<lambda>i. sum (weight mu a b d i) {..<n}) [0..<n]) = Inl NonFinite"
    by (rule div_rows_mk_zero[of i n "\<lambda>i. sum (weight mu a b d i) {..<n}"]) (use assms in simp_all)
  show ?thesis
    unfolding StructProbMatrix_def Let_def amap_mk shape0.simps length_mk
    by (simp only: setitem_triu_mk setitem_diag_mk bind_def sum.case shape0.simps length_mk 1
        sum_axis1_mk sum_list_upt 2)
qed

lemma SPM_TD_cases:
  "StructProbMatrix (TDMatrix t) mu a b = Inl NonFinite \<or>
   StructProbMatrix (TDMatrix t) mu a b
     = Inr (Mat (mk (length t) (\<lambda>i j. weight mu a b (gap t) i j
                                       / sum (weight mu a b (gap t) i) {..<length t})))"
proof (cases "\<exists>i<length t. sum (weight mu a b (gap t) i) {..<length t} = 0")
  case True
  then show ?thesis using SPM_mk_zero[of _ "length t" mu a b "gap t"] by (auto simp: TDMatrix_gap)
next
  case False
  then show ?thesis using SPM_mk[of "length t" mu a b "gap t"] by (auto simp: TDMatrix_gap)
qed

lemma sum_list_nth_upt: "sum_list (map g t) = (\<Sum>i<length t. g (t ! i))"
proof -
  have "map g t = map (\<lambda>i. g (t ! i)) [0..<length t]"
    by (intro nth_equalityI) simp_all
  then show ?thesis by (simp only: sum_list_upt)
qed

lemma m_step_mk:
  "m_step newton t T (Mat (mk (length t) p)) (TDMatrix t) b =
     (if T = 0 then Inl NonFinite
      else bind (newton (f t T (\<Sum>i<length t. p i i) (real (length t) - (\<Sum>i<length t. p i i))
                           (- (\<Sum>i<length t. \<Sum>j\<le>i. p i j * (t ! i - t ! j)))) b) (\<lambda>b'.
             if (\<Sum>i<length t. 1 - exp (- b' * (T - t ! i))) = 0 then Inl NonFinite
             else Inr ((\<Sum>i<length t. p i i) / T,
                       b' * (real (length t) - (\<Sum>i<length t. p i i))
                         / (\<Sum>i<length t. 1 - exp (- b' * (T - t ! i))),
                       b')))"
proof -
  let ?n = "length t"
  have m: "mul (Mat (mk ?n p)) (TDMatrix t) = Inr (Mat (mk ?n (\<lambda>i j. p i j * gap t i j)))"
    by (simp only: TDMatrix_gap mul_mk)
  have s: "np_sum (Mat (mk ?n (\<lambda>i j. p i j * gap t i j)))
             = (\<Sum>i<?n. \<Sum>j\<le>i. p i j * (t ! i - t ! j))"
    unfolding np_sum_mk
  proof (rule sum.cong)
    fix i assume "i \<in> {..<?n}"
    then have i: "i < ?n" by simp
    have "(\<Sum>j<?n. p i j * gap t i j) = (\<Sum>j\<le>i. p i j * gap t i j)"
      by (rule sum_lower[OF i]) (simp add: gap_def)
    also have "\<dots> = (\<Sum>j\<le>i. p i j * (t ! i - t ! j))"
      by (rule sum.cong) (simp_all add: gap_def)
    finally show "(\<Sum>j<?n. p i j * gap t i j) = (\<Sum>j\<le>i. p i j * (t ! i - t ! j))" .
  qed simp
  show ?thesis
    unfolding m_step_def Let_def m bind_def sum.case s np_sum_diag_mk
      sum_list_nth_upt[of "\<lambda>x. 1 - exp (- _ * (T - x))" t]
    by (rule refl)
qed

lemma f_value:
  "f t T S0 S1 S2 b =
     (if b = 0 \<or> (\<Sum>i<length t. 1 - exp (- b * (T - t ! i))) = 0 then Inl NonFinite
      else Inr (S2 + S1 / b - S1 * ((\<Sum>i<length t. (T - t ! i) * exp (- b * (T - t ! i)))
                                    / (\<Sum>i<length t. 1 - exp (- b * (T - t ! i))))))"
  unfolding f_def Let_def
    sum_list_nth_upt[of "\<lambda>x. 1 - exp (- b * (T - x))" t]
    sum_list_nth_upt[of "\<lambda>x. (T - x) * exp (- b * (T - x))" t]
  by (rule refl)

lemma bind_Inr: "bind m k = Inr y \<Longrightarrow> \<exists>x. m = Inr x \<and> k x = Inr y"
  by (cases m) (simp_all add: bind_def)

lemma em_step_value:
  assumes "0 < mu" and "0 \<le> a"
  shows "em_step newton t T (TDMatrix t) (mu, a, b) =
     bind (m_step newton t T
             (Mat (mk (length t) (\<lambda>i j. weight mu a b (gap t) i j
                                          / sum (weight mu a b (gap t) i) {..<length t})))
             (TDMatrix t) b)
       (\<lambda>(mu', a', b'). Inr (mu', a', b',
             Mat (mk (length t) (\<lambda>i j. weight mu a b (gap t) i j
                                          / sum (weight mu a b (gap t) i) {..<length t}))))"
  unfolding em_step.simps SPM_TD[OF assms] bind_def sum.case by (rule refl)

lemma exp_minus_ne: "x \<noteq> 0 \<Longrightarrow> exp (- x) \<noteq> 1 - (x :: real)"
proof
  assume x: "x \<noteq> 0" and e: "exp (- x) = 1 - x"
  have "ln (exp (- x)) = - x" by simp
  with e have "ln (exp (- x)) = exp (- x) - 1" by linarith
  then have "exp (- x) = 1" by (intro ln_eq_minus_one) simp_all
  then show False using x by simp
qed

lemma no_root_two:
  "f [0, 1] 1 (5 / 3) (1 / 3) (- (1 / 3)) x \<noteq> Inr 0"
proof (cases "x = 0 \<or> exp (- x) = 1")
  case True
  then show ?thesis unfolding f_value by (auto simp: lessThan_Suc)
next
  case False
  then have x: "x \<noteq> 0" and d: "1 - exp (- x) \<noteq> 0" by auto
  have "- (1 / 3) + (1 / 3) / x - (1 / 3) * (exp (- x) / (1 - exp (- x))) \<noteq> 0"
  proof
    assume "- (1 / 3) + (1 / 3) / x - (1 / 3) * (exp (- x) / (1 - exp (- x))) = 0"
    moreover have "(1 / 3) / x = (1 / 3) * (1 / x)" by simp
    ultimately have "- (1 / 3) + (1 / 3) * (1 / x) - (1 / 3) * (exp (- x) / (1 - exp (- x))) = 0"
      by (simp only:)
    then have 1: "1 / x = 1 + exp (- x) / (1 - exp (- x))"
      by linarith
    have "1 + exp (- x) / (1 - exp (- x)) = 1 / (1 - exp (- x))"
      using d by (simp add: field_simps)
    with 1 have "1 / x = 1 / (1 - exp (- x))" by simp
    then have "x = 1 - exp (- x)" using x d by (simp add: field_simps)
    then show False using exp_minus_ne[OF x] by simp
  qed
  then show ?thesis unfolding f_value using x d by (simp add: lessThan_Suc)
qed

text \<open>
  C2 as stated fails on the root. For the valid input \<open>t = [0, 1]\<close>, \<open>mu = a = 1\<close>,
  \<open>b = log 2\<close> the E-step gives \<open>S0 = 5/3\<close>, \<open>S1 = 1/3\<close>, \<open>S2 = -1/3\<close>, and the pass hands the
  objective \<open>f t 1 (5/3) (1/3) (-1/3)\<close> to the root finder. This objective has no root: a
  root \<open>x\<close> would satisfy \<open>exp (- x) = 1 - x\<close> with \<open>x \<noteq> 0\<close>. Whatever the pass returns as
  \<open>b'\<close>, it is not a root of the equation.
\<close>

theorem em_step_no_root:
  "sorted_wrt (<) [0, 1 :: real] \<and> 0 < ln (2 :: real) \<and>
   em_step scipy_newton [0, 1] 1 (TDMatrix [0, 1]) (1, 1, ln 2)
     = (case scipy_newton (f [0, 1] 1 (5 / 3) (1 / 3) (- (1 / 3))) (ln 2) of
          Inl e \<Rightarrow> Inl e
        | Inr b' \<Rightarrow> if 1 - exp (- b') = 0 then Inl NonFinite
                    else Inr (5 / 3, b' * (1 / 3) / (1 - exp (- b')), b',
                              Mat [[1, 0], [1 / 3, 2 / 3]])) \<and>
   \<not> (\<exists>b'. f [0, 1] 1 (5 / 3) (1 / 3) (- (1 / 3)) b' = Inr 0)"
proof -
  have 1: "em_step scipy_newton [0, 1] 1 (TDMatrix [0, 1]) (1, 1, ln 2)
     = (case scipy_newton (f [0, 1] 1 (5 / 3) (1 / 3) (- (1 / 3))) (ln 2) of
          Inl e \<Rightarrow> Inl e
        | Inr b' \<Rightarrow> if 1 - exp (- b') = 0 then Inl NonFinite
                    else Inr (5 / 3, b' * (1 / 3) / (1 - exp (- b')), b',
                              Mat [[1, 0], [1 / 3, 2 / 3]]))"
    unfolding em_step_value[of 1 1 _ "[0, 1]" _ "ln 2", OF zero_less_one zero_le_one] m_step_mk
    by (simp add: bind_def weight_def gap_def lessThan_Suc atMost_Suc mk_def exp_minus
        split: sum.split)
  have 2: "\<not> (\<exists>b'. f [0, 1] 1 (5 / 3) (1 / 3) (- (1 / 3)) b' = Inr 0)"
    using no_root_two by blast
  from 1 2 show ?thesis by simp
qed

text \<open>
  C2, as the code has it. One pass of the loop body of \<open>ExpectationMaximization\<close> on a valid
  input (strictly increasing \<open>t\<close> with at least two entries, positive \<open>mu\<close>, \<open>a\<close>, \<open>b\<close>), for
  any root finder \<open>newton\<close>. With \<open>P\<close> the matrix of the E-step, \<open>S0\<close> the sum of its diagonal,
  \<open>S1 = n - S0\<close>, \<open>S2\<close> minus the sum over \<open>j \<le> i\<close> of \<open>p_ij * dt_ij\<close> and
  \<open>T = t[n-1] - t[0] > 0\<close>: the objective handed to the root finder is
  \<open>S2 + S1 / x - S1 * (sum (T - t_i) * exp (- x (T - t_i))) / (sum (1 - exp (- x (T - t_i))))\<close>,
  and the pass is determined by what the root finder does with it from the previous \<open>b\<close>: its
  exception is the exception of the pass; its result \<open>b'\<close> is taken as it is, and the pass
  returns \<open>mu' = S0 / T\<close>, \<open>a' = b' * S1 / sum (1 - exp (- b' (T - t_i)))\<close>, \<open>b'\<close> and \<open>P\<close> (the
  division is by zero when that sum is 0).
\<close>

theorem em_step_update:
  assumes "sorted_wrt (<) t" and "2 \<le> length t" and "0 < mu" and "0 < a" and "0 < b"
  shows "\<exists>P. StructProbMatrix (TDMatrix t) mu a b = Inr (Mat P) \<and>
     (let n = length t;
          T = t ! (n - 1) - t ! 0;
          S0 = (\<Sum>i<n. P ! i ! i);
          S1 = real n - S0;
          S2 = - (\<Sum>i<n. \<Sum>j\<le>i. P ! i ! j * (t ! i - t ! j));
          num = (\<lambda>x. \<Sum>i<n. (T - t ! i) * exp (- x * (T - t ! i)));
          den = (\<lambda>x. \<Sum>i<n. 1 - exp (- x * (T - t ! i)))
      in 0 < T \<and> T = last t - hd t \<and>
         (\<forall>x. f t T S0 S1 S2 x =
                (if x = 0 \<or> den x = 0 then Inl NonFinite
                 else Inr (S2 + S1 / x - S1 * (num x / den x)))) \<and>
         em_step newton t T (TDMatrix t) (mu, a, b) =
           (case newton (f t T S0 S1 S2) b of
              Inl e \<Rightarrow> Inl e
            | Inr b' \<Rightarrow> if den b' = 0 then Inl NonFinite
                        else Inr (S0 / T, b' * S1 / den b', b', Mat P)))"
proof -
  let ?n = "length t"
  let ?T = "t ! (?n - 1) - t ! 0"
  let ?w = "\<lambda>i j. weight mu a b (gap t) i j / sum (weight mu a b (gap t) i) {..<?n}"
  let ?P = "mk ?n ?w"
  let ?S0 = "\<Sum>i<?n. ?w i i"
  let ?S1 = "real ?n - ?S0"
  let ?S2 = "- (\<Sum>i<?n. \<Sum>j\<le>i. ?w i j * (t ! i - t ! j))"
  let ?den = "\<lambda>x. \<Sum>i<?n. 1 - exp (- x * (?T - t ! i))"
  have ne: "t \<noteq> []" using assms(2) by auto
  have a: "0 \<le> a" using assms(4) by simp
  have TT: "?T = last t - hd t"
    using ne by (simp add: last_conv_nth hd_conv_nth)
  have "t ! 0 < t ! (?n - 1)"
    by (rule sorted_wrt_nth_less[OF assms(1)]) (use assms(2) in simp_all)
  then have T: "0 < ?T" by simp
  have run: "StructProbMatrix (TDMatrix t) mu a b = Inr (Mat ?P)"
    by (rule SPM_TD[OF assms(3) a])
  have step: "em_step newton t ?T (TDMatrix t) (mu, a, b) =
           (case newton (f t ?T ?S0 ?S1 ?S2) b of
              Inl e \<Rightarrow> Inl e
            | Inr b' \<Rightarrow> if ?den b' = 0 then Inl NonFinite
                        else Inr (?S0 / ?T, b' * ?S1 / ?den b', b', Mat ?P))"
    unfolding em_step_value[OF assms(3) a] m_step_mk using T
    by (simp add: bind_def split: sum.split)
  have d: "(\<Sum>i<?n. ?P ! i ! i) = ?S0"
    by (rule sum.cong) (simp_all add: nth_nth_mk)
  have s: "(\<Sum>i<?n. \<Sum>j\<le>i. ?P ! i ! j * (t ! i - t ! j)) = (\<Sum>i<?n. \<Sum>j\<le>i. ?w i j * (t ! i - t ! j))"
    by (intro sum.cong refl) (simp add: nth_nth_mk)
  show ?thesis
    apply (rule exI[of _ ?P])
    unfolding Let_def d s
    using run T TT step f_value by blast
qed

theorem em_step_update_witness:
  "\<exists>P. StructProbMatrix (TDMatrix [0, 1]) 1 1 (ln 2) = Inr (Mat P) \<and>
     (let n = length [0, 1 :: real];
          T = [0, 1] ! (n - 1) - [0, 1] ! 0;
          S0 = (\<Sum>i<n. P ! i ! i);
          S1 = real n - S0;
          S2 = - (\<Sum>i<n. \<Sum>j\<le>i. P ! i ! j * ([0, 1] ! i - [0, 1] ! j));
          den = (\<lambda>x. \<Sum>i<n. 1 - exp (- x * (T - [0, 1] ! i)))
      in 0 < T \<and>
         em_step scipy_newton [0, 1] T (TDMatrix [0, 1]) (1, 1, ln 2) =
           (case scipy_newton (f [0, 1] T S0 S1 S2) (ln 2) of
              Inl e \<Rightarrow> Inl e
            | Inr b' \<Rightarrow> if den b' = 0 then Inl NonFinite
                        else Inr (S0 / T, b' * S1 / den b', b', Mat P)))"
proof -
  have h: "sorted_wrt (<) [0, 1 :: real]" "2 \<le> length [0, 1 :: real]" "0 < (1 :: real)"
    "0 < ln (2 :: real)"
    by simp_all
  from em_step_update [OF h(1) h(2) h(3) h(3) h(4), of scipy_newton]
  show ?thesis
    unfolding Let_def by (elim exE conjE) (intro exI conjI, assumption+)
qed

lemma bind_Inl: "bind m k = Inl e \<Longrightarrow> m = Inl e \<or> (\<exists>x. m = Inr x \<and> k x = Inl e)"
  by (cases m) (simp_all add: bind_def)

lemma m_step_err:
  assumes "m_step newton t T (Mat (mk (length t) p)) (TDMatrix t) b = Inl e"
  shows "e = NonFinite \<or> (\<exists>g x. newton g x = Inl e)"
proof (cases "T = 0")
  case True
  then show ?thesis using assms unfolding m_step_mk by simp
next
  case False
  with assms have "bind (newton (f t T (\<Sum>i<length t. p i i) (real (length t) - (\<Sum>i<length t. p i i))
                           (- (\<Sum>i<length t. \<Sum>j\<le>i. p i j * (t ! i - t ! j)))) b) (\<lambda>b'.
             if (\<Sum>i<length t. 1 - exp (- b' * (T - t ! i))) = 0 then Inl NonFinite
             else Inr ((\<Sum>i<length t. p i i) / T,
                       b' * (real (length t) - (\<Sum>i<length t. p i i))
                         / (\<Sum>i<length t. 1 - exp (- b' * (T - t ! i))),
                       b')) = Inl e"
    unfolding m_step_mk by simp
  from bind_Inl[OF this] show ?thesis by (auto split: if_splits)
qed

lemma em_step_err:
  assumes "em_step newton t T (TDMatrix t) st = Inl e"
  shows "e = NonFinite \<or> (\<exists>g x. newton g x = Inl e)"
proof -
  obtain mu a b where st: "st = (mu, a, b)" by (cases st) auto
  let ?P = "Mat (mk (length t) (\<lambda>i j. weight mu a b (gap t) i j
                                       / sum (weight mu a b (gap t) i) {..<length t}))"
  from SPM_TD_cases[of t mu a b] show ?thesis
  proof
    assume "StructProbMatrix (TDMatrix t) mu a b = Inl NonFinite"
    then show ?thesis using assms by (simp add: st bind_def)
  next
    assume p: "StructProbMatrix (TDMatrix t) mu a b = Inr ?P"
    with assms have "bind (m_step newton t T ?P (TDMatrix t) b) (\<lambda>(mu', a', b'). Inr (mu', a', b', ?P)) = Inl e"
      by (simp add: st bind_def)
    from bind_Inl[OF this] have "m_step newton t T ?P (TDMatrix t) b = Inl e"
      by (auto split: prod.splits)
    then show ?thesis by (rule m_step_err)
  qed
qed

lemma em_loop_err:
  "em_loop newton t T (TDMatrix t) k st p = Inl e \<Longrightarrow>
   e = NonFinite \<or> (\<exists>g x. newton g x = Inl e)"
proof (induction k arbitrary: st p)
  case 0
  then show ?case by simp
next
  case (Suc k)
  from bind_Inl[OF Suc.prems[unfolded em_loop.simps]] show ?case
  proof
    assume "em_step newton t T (TDMatrix t) st = Inl e"
    then show ?thesis by (rule em_step_err)
  next
    assume "\<exists>x. em_step newton t T (TDMatrix t) st = Inr x \<and>
      (case x of (mu', a', b', p') \<Rightarrow> em_loop newton t T (TDMatrix t) k (mu', a', b') (Some p')) = Inl e"
    then obtain mu' a' b' p' where "em_loop newton t T (TDMatrix t) k (mu', a', b') (Some p') = Inl e"
      by (auto split: prod.splits)
    then show ?thesis by (rule Suc.IH)
  qed
qed

lemma em_loop_None:
  "em_loop newton t T dt k st p = Inr (st', None) \<Longrightarrow> k = 0"
proof (induction k arbitrary: st p)
  case 0
  then show ?case by simp
next
  case (Suc k)
  from bind_Inr[OF Suc.prems[unfolded em_loop.simps]]
  obtain mu' a' b' p' where "em_loop newton t T dt k (mu', a', b') (Some p') = Inr (st', None)"
    by (auto split: prod.splits)
  from Suc.IH[OF this] have "k = 0" .
  with \<open>em_loop newton t T dt k (mu', a', b') (Some p') = Inr (st', None)\<close> show ?case by simp
qed

text \<open>
  C3, as the code has it. \<open>ExpectationMaximization\<close> does not check its input. An empty
  timestamp sequence fails at once (IndexError, from \<open>t[-1]\<close>). Every other input, valid or
  not, is iterated on as given: the driver fails only with UnboundLocalError when
  \<open>niter = 0\<close> (at the final return, for valid input too), with an exception of the root
  finder, or not at all; \<open>NonFinite\<close> marks the runs that go on with \<^verbatim>\<open>inf\<close> or \<^verbatim>\<open>nan\<close>.
\<close>

theorem ExpectationMaximization_failures:
  "ExpectationMaximization newton [] niter mu0 a0 b0 = Inl IndexError \<and>
   (t \<noteq> [] \<longrightarrow> ExpectationMaximization newton t 0 mu0 a0 b0 = Inl UnboundLocalError) \<and>
   (ExpectationMaximization newton t niter mu0 a0 b0 = Inl e \<longrightarrow>
      (t = [] \<and> e = IndexError) \<or> (t \<noteq> [] \<and> niter = 0 \<and> e = UnboundLocalError) \<or>
      e = NonFinite \<or> (\<exists>g x. newton g x = Inl e))"
proof (intro conjI impI)
  show "ExpectationMaximization newton [] niter mu0 a0 b0 = Inl IndexError"
    by (simp add: ExpectationMaximization_def)
next
  assume "t \<noteq> []"
  then show "ExpectationMaximization newton t 0 mu0 a0 b0 = Inl UnboundLocalError"
    by (simp add: ExpectationMaximization_def bind_def)
next
  assume err: "ExpectationMaximization newton t niter mu0 a0 b0 = Inl e"
  show "(t = [] \<and> e = IndexError) \<or> (t \<noteq> [] \<and> niter = 0 \<and> e = UnboundLocalError) \<or>
      e = NonFinite \<or> (\<exists>g x. newton g x = Inl e)"
  proof (cases "t = []")
    case True
    then show ?thesis using err by (simp add: ExpectationMaximization_def)
  next
    case False
    let ?L = "em_loop newton t (last t - hd t) (TDMatrix t) niter (mu0, a0, b0) None"
    from err False have b: "bind ?L (\<lambda>((mu, a, b), p).
                case p of None \<Rightarrow> Inl UnboundLocalError
                        | Some p \<Rightarrow> Inr (mu, a, b, p)) = Inl e"
      by (simp add: ExpectationMaximization_def Let_def)
    from bind_Inl[OF b] consider (loop) "?L = Inl e"
      | (ret) st' where "?L = Inr (st', None)" and "e = UnboundLocalError"
      by (auto split: prod.splits option.splits)
    then show ?thesis
    proof cases
      case loop
      from em_loop_err[OF this] show ?thesis by blast
    next
      case ret
      with em_loop_None[of newton t _ _ niter _ None st'] False show ?thesis by blast
    qed
  qed
qed

theorem ExpectationMaximization_failures_witness:
  "ExpectationMaximization scipy_newton [] 1 (9 / 10) (8 / 10) (1 / 2) = Inl IndexError \<and>
   [0, 1 :: real] \<noteq> [] \<and>
   ExpectationMaximization scipy_newton [0, 1] 0 (9 / 10) (8 / 10) (1 / 2) = Inl UnboundLocalError"
proof -
  have ne: "[0, 1 :: real] \<noteq> []" by simp
  from ExpectationMaximization_failures [of scipy_newton 1 "9 / 10" "8 / 10" "1 / 2" "[0, 1]" IndexError]
  show ?thesis using ne by blast
qed

text \<open>
  The claim as stated fails: with \<open>a0 = 0\<close>, a non-positive initial parameter, nothing is
  reported; the pass runs on the input and the driver returns its result.
\<close>

theorem ExpectationMaximization_unchecked:
  "\<not> (0 :: real) < 0 \<and>
   ExpectationMaximization scipy_newton [0, 1] 1 1 0 1
     = Inr (2, 0, 10001 / 10000, Mat [[1, 0], [0, 1]])"
proof -
  have 1: "em_step scipy_newton [0, 1] 1 (TDMatrix [0, 1]) (1, 0, 1)
     = Inr (2, 0, 10001 / 10000, Mat [[1, 0], [0, 1]])"
    unfolding em_step_value[of 1 0 _ "[0, 1]" _ 1, OF zero_less_one order_refl] m_step_mk f_value
      scipy_newton_def
    by (simp add: bind_def weight_def gap_def lessThan_Suc atMost_Suc mk_def numeral_eq_Suc)
  have "ExpectationMaximization scipy_newton [0, 1] 1 1 0 1
     = Inr (2, 0, 10001 / 10000, Mat [[1, 0], [0, 1]])"
    unfolding ExpectationMaximization_def Let_def
    by (simp add: 1 bind_def del: em_step.simps)
  then show ?thesis by simp
qed

text \<open>
  The claim as stated fails: for the one event \<open>t = [0]\<close> (\<open>T = 0\<close>, \<open>S0 = 1\<close>, \<open>S1 = 0\<close>,
  \<open>S2 = 0\<close>) the denominator is 0 and the objective divides by it; the outcome is the
  silent \<^verbatim>\<open>nan\<close>, not a reported failure.
\<close>

theorem f_zero_denominator:
  "(\<Sum>x\<leftarrow>[0 :: real]. 1 - exp (- 1 * (0 - x))) = 0 \<and> f [0] 0 1 0 0 1 = Inl NonFinite"
  by (simp add: f_def)

text \<open>
  C8, as the code has it. The maximization has no check for a degenerate triggered mass.
  Whenever the sum of \<open>1 - exp (- b (T - t_i))\<close> is 0, the objective \<open>f\<close> divides by it, whatever
  the statistics are (\<^verbatim>\<open>inf\<close> or \<^verbatim>\<open>nan\<close>, no exception). With \<open>S1 = 0\<close>, a non-zero \<open>b\<close>
  and a non-zero sum, \<open>f\<close> is the constant \<open>S2\<close>. And when the diagonal of \<open>p\<close> sums to \<open>n\<close>, so
  that \<open>S1 = 0\<close>, the step returns \<open>(n / T, 0, b')\<close> for whatever \<open>b'\<close> the root finder returns
  (with \<open>T\<close> and the sum at \<open>b'\<close> non-zero): nothing is reported.
\<close>

theorem m_step_unguarded:
  "((\<Sum>i<length t. 1 - exp (- b * (T - t ! i))) = 0 \<longrightarrow> f t T S0 S1 S2 b = Inl NonFinite) \<and>
   (b \<noteq> 0 \<and> (\<Sum>i<length t. 1 - exp (- b * (T - t ! i))) \<noteq> 0 \<longrightarrow> f t T S0 0 S2 b = Inr S2) \<and>
   ((\<Sum>i<length t. p i i) = real (length t) \<and> T \<noteq> 0 \<and>
    newton (f t T (real (length t)) 0
              (- (\<Sum>i<length t. \<Sum>j\<le>i. p i j * (t ! i - t ! j)))) b = Inr b' \<and>
    (\<Sum>i<length t. 1 - exp (- b' * (T - t ! i))) \<noteq> 0 \<longrightarrow>
      m_step newton t T (Mat (mk (length t) p)) (TDMatrix t) b = Inr (real (length t) / T, 0, b'))"
proof (intro conjI impI)
  assume "(\<Sum>i<length t. 1 - exp (- b * (T - t ! i))) = 0"
  then show "f t T S0 S1 S2 b = Inl NonFinite"
    unfolding f_value by simp
next
  assume "b \<noteq> 0 \<and> (\<Sum>i<length t. 1 - exp (- b * (T - t ! i))) \<noteq> 0"
  then show "f t T S0 0 S2 b = Inr S2"
    unfolding f_value by simp
next
  assume h: "(\<Sum>i<length t. p i i) = real (length t) \<and> T \<noteq> 0 \<and>
    newton (f t T (real (length t)) 0
              (- (\<Sum>i<length t. \<Sum>j\<le>i. p i j * (t ! i - t ! j)))) b = Inr b' \<and>
    (\<Sum>i<length t. 1 - exp (- b' * (T - t ! i))) \<noteq> 0"
  then have S0: "(\<Sum>i<length t. p i i) = real (length t)" by blast
  have S1: "real (length t) - real (length t) = 0" by simp
  show "m_step newton t T (Mat (mk (length t) p)) (TDMatrix t) b = Inr (real (length t) / T, 0, b')"
    unfolding m_step_mk S0 S1 using h by (simp add: bind_def)
qed

theorem m_step_unguarded_witness:
  "f [0] 0 1 0 0 1 = Inl NonFinite \<and>
   f [0, 1] 1 2 0 0 1 = Inr 0 \<and>
   m_step scipy_newton [0, 1] 1 (Mat (mk (length [0, 1 :: real]) (\<lambda>i j. if i = j then 1 else 0)))
      (TDMatrix [0, 1]) 1 = Inr (real (length [0, 1 :: real]) / 1, 0, 10001 / 10000)"
proof -
  have 1: "(\<Sum>i<length [0 :: real]. 1 - exp (- 1 * (0 - [0 :: real] ! i))) = 0"
    by simp
  have 2: "(1 :: real) \<noteq> 0 \<and> (\<Sum>i<length [0, 1 :: real]. 1 - exp (- 1 * (1 - [0, 1 :: real] ! i))) \<noteq> 0"
    by (simp add: lessThan_Suc)
  have 3: "(\<Sum>i<length [0, 1 :: real]. if i = i then 1 else 0) = real (length [0, 1 :: real]) \<and> (1 :: real) \<noteq> 0 \<and>
    scipy_newton (f [0, 1] 1 (real (length [0, 1 :: real])) 0
              (- (\<Sum>i<length [0, 1 :: real]. \<Sum>j\<le>i. (if i = j then 1 else 0) * ([0, 1] ! i - [0, 1] ! j)))) 1
        = Inr (10001 / 10000) \<and>
    (\<Sum>i<length [0, 1 :: real]. 1 - exp (- (10001 / 10000) * (1 - [0, 1 :: real] ! i))) \<noteq> 0"
    unfolding scipy_newton_def f_value
    by (simp add: bind_def lessThan_Suc atMost_Suc numeral_eq_Suc)
  from m_step_unguarded [where t = "[0]" and b = 1 and T = 0 and ?S0.0 = 1 and ?S1.0 = 0 and ?S2.0 = 0] 1
  have a: "f [0] 0 1 0 0 1 = Inl NonFinite" by blast
  from m_step_unguarded [where t = "[0, 1]" and b = 1 and T = 1 and ?S0.0 = 2 and ?S2.0 = 0
      and p = "\<lambda>i j. if i = j then 1 else 0" and newton = scipy_newton and b' = "10001 / 10000"] 2 3
  have b: "f [0, 1] 1 2 0 0 1 = Inr 0"
    and c: "m_step scipy_newton [0, 1] 1 (Mat (mk (length [0, 1 :: real]) (\<lambda>i j. if i = j then 1 else 0)))
      (TDMatrix [0, 1]) 1 = Inr (real (length [0, 1 :: real]) / 1, 0, 10001 / 10000)"
    by blast+
  from a b c show ?thesis by (intro conjI)
qed

end
